theory Spec2Isabelle
  imports Main "HOL-Library.Char_ord" "HOL-Library.List_Lexorder" "HOL-Library.AList"
begin

section \<open>The blocklist manager of backend/blocklist.py\<close>

text \<open>
  The module keeps a table of temporarily unblocked domains, rewrites the dnsmasq hosts
  file after every change, and schedules one asyncio task per grant that re-blocks the
  grant's domains when its sleep is over. The embedding is a state-passing one:
  \<^item> a Python \<open>str\<close> is the byte string of its UTF-8 encoding (every \<open>str\<close> is taken to
    be encodable); \<open>sorted\<close> on Python strings compares code points, which is the
    lexicographic order of the UTF-8 bytes. The captured stderr of a subprocess is
    \<open>bytes\<close>, any byte string, and decoding it can fail;
  \<^item> a \<open>datetime\<close> is the number of microseconds since 0001-01-01T00:00:00, and each
    reading of \<open>datetime.now()\<close> is an argument of the operation that reads it;
  \<^item> the dictionary \<open>active_unblocks\<close> is an association list in insertion order whose
    values are references (indices) into a store of \<open>ActiveUnblock\<close> objects, since one
    object is shared by several keys and its \<open>timer_task\<close> is assigned after it was stored;
  \<^item> an asyncio task is an entry of a task table; its handle is its index. The event loop
    is single threaded and none of the manager's methods suspends before its last
    statement (\<open>_write_blocklist\<close> contains no await), so every method runs as one step,
    and so does the body of \<open>_reblock_after\<close> once its sleep is over;
  \<^item> the two subprocesses are the outside world: their outcome is an argument, and what
    was handed to them is appended to a trace of effects;
  \<^item> an exception that leaves a method is part of the method's result, next to the
    manager as the method left it; an exception that leaves a task is kept in the task.
\<close>

subsection \<open>Time\<close>

type_synonym datetime = int

datatype py_error = OverflowError | UnicodeDecodeError | OSError

definition MAX_DELTA_DAYS :: int where
  "MAX_DELTA_DAYS = 999999999"

definition MAXORDINAL :: int where
  "MAXORDINAL = 3652059"

definition US_PER_DAY :: int where
  "US_PER_DAY = 86400000000"

text \<open>\<open>timedelta(minutes=n)\<close> for an int \<open>n\<close>: the value in microseconds; the constructor
  raises OverflowError when the normalised day count exceeds 999999999 in magnitude.\<close>

definition timedelta_minutes :: "int \<Rightarrow> py_error + int" where
  "timedelta_minutes n =
     (let us = n * 60000000 in
      if \<bar>us div US_PER_DAY\<bar> > MAX_DELTA_DAYS then Inl OverflowError else Inr us)"

text \<open>\<open>datetime + timedelta\<close>: raises OverflowError when the result leaves the years 1..9999.\<close>

definition datetime_add :: "datetime \<Rightarrow> int \<Rightarrow> py_error + datetime" where
  "datetime_add t delta =
     (let r = t + delta in
      if r < 0 \<or> r \<ge> MAXORDINAL * US_PER_DAY then Inl OverflowError else Inr r)"

definition digit :: "int \<Rightarrow> char" where
  "digit n = char_of (48 + nat (n mod 10))"

definition d2 :: "int \<Rightarrow> string" where
  "d2 n = [digit (n div 10), digit n]"

definition d4 :: "int \<Rightarrow> string" where
  "d4 n = d2 (n div 100) @ d2 n"

definition d6 :: "int \<Rightarrow> string" where
  "d6 n = d4 (n div 100) @ d2 n"

text \<open>Day number (0 is 0001-01-01) to year, month, day of the proleptic Gregorian calendar,
  counting in 400-year eras that start on a first of March.\<close>

definition ord2ymd :: "int \<Rightarrow> int \<times> int \<times> int" where
  "ord2ymd n =
     (let z = n + 306;
          era = z div 146097;
          doe = z mod 146097;
          yoe = (doe - doe div 1460 + doe div 36524 - doe div 146096) div 365;
          doy = doe - (365 * yoe + yoe div 4 - yoe div 100);
          mp = (5 * doy + 2) div 153;
          dd = doy - (153 * mp + 2) div 5 + 1;
          mm = (if mp < 10 then mp + 3 else mp - 9);
          yy = yoe + era * 400 + (if mm \<le> 2 then 1 else 0)
      in (yy, mm, dd))"

text \<open>\<open>datetime.isoformat()\<close> of a naive datetime: the fraction is printed only when the
  microsecond field is not zero.\<close>

definition isoformat :: "datetime \<Rightarrow> string" where
  "isoformat t =
     (let (yy, mm, dd) = ord2ymd (t div US_PER_DAY);
          r = t mod US_PER_DAY;
          s = r div 1000000;
          us = r mod 1000000
      in d4 yy @ ''-'' @ d2 mm @ ''-'' @ d2 dd @ ''T'' @ d2 (s div 3600) @ '':''
         @ d2 (s div 60 mod 60) @ '':'' @ d2 (s mod 60)
         @ (if us \<noteq> 0 then ''.'' @ d6 us else []))"

subsection \<open>Data\<close>

record ActiveUnblock =
  domain :: string
  device_ip :: string
  device_name :: "string option"
  scope :: "string option"
  reason :: string
  unblocked_at :: datetime
  expires_at :: datetime
  timer_task :: "nat option"

text \<open>\<open>ActiveUnblock.__init__\<close>: the clock is read once, the expiry is computed from it.\<close>

definition new_ActiveUnblock ::
  "string \<Rightarrow> string \<Rightarrow> string option \<Rightarrow> string option \<Rightarrow> string \<Rightarrow> int \<Rightarrow> datetime
     \<Rightarrow> py_error + ActiveUnblock" where
  "new_ActiveUnblock d ip name sc rsn duration_minutes now =
     (case timedelta_minutes duration_minutes of
        Inl e \<Rightarrow> Inl e
      | Inr delta \<Rightarrow>
          (case datetime_add now delta of
             Inl e \<Rightarrow> Inl e
           | Inr ex \<Rightarrow>
               Inr \<lparr>domain = d, device_ip = ip, device_name = name, scope = sc, reason = rsn,
                    unblocked_at = now, expires_at = ex, timer_task = None\<rparr>))"

datatype task_state = Sleeping | Cancelled | Done | Failed py_error

text \<open>A task created from \<open>_reblock_after(domains, minutes)\<close>. It is \<open>Sleeping\<close> until its
  sleep is over or it is cancelled, \<open>Done\<close> when its body has run to the end, and \<open>Failed\<close>
  when an exception other than CancelledError has left the body; python iterates the set \<open>domains\<close> in an order of its
  own, the model keeps the order in which the set was built.\<close>

record reblock_task =
  task_domains :: "string list"
  task_minutes :: int
  task_state :: task_state

text \<open>What \<open>subprocess.run\<close> does: it returns a return code with the captured stderr, or
  raises the TimeoutExpired that the source catches, or raises an OSError because the
  program could not be started, which the source does not catch.\<close>

datatype proc_result = Completed int string | TimeoutExpired | Not_started

subsection \<open>Decoding and paths\<close>

text \<open>\<open>bytes.decode()\<close> with the default codec, strict UTF-8: the bytes are read by an
  automaton that accepts the well-formed sequences (no overlong forms, no surrogates,
  nothing above U+10FFFF). The decoded \<open>str\<close> is represented by the same bytes.\<close>

datatype utf8_state =
  Start | Cont1 | Cont2 | Cont3 | After_E0 | After_ED | After_F0 | After_F4 | Invalid

definition is_cont :: "nat \<Rightarrow> bool" where
  "is_cont b = (0x80 \<le> b \<and> b \<le> 0xBF)"

fun utf8_step :: "utf8_state \<Rightarrow> nat \<Rightarrow> utf8_state" where
  "utf8_step Start b =
     (if b < 0x80 then Start
      else if 0xC2 \<le> b \<and> b \<le> 0xDF then Cont1
      else if b = 0xE0 then After_E0
      else if b = 0xED then After_ED
      else if 0xE1 \<le> b \<and> b \<le> 0xEF then Cont2
      else if b = 0xF0 then After_F0
      else if 0xF1 \<le> b \<and> b \<le> 0xF3 then Cont3
      else if b = 0xF4 then After_F4
      else Invalid)"
| "utf8_step Cont1 b = (if is_cont b then Start else Invalid)"
| "utf8_step Cont2 b = (if is_cont b then Cont1 else Invalid)"
| "utf8_step Cont3 b = (if is_cont b then Cont2 else Invalid)"
| "utf8_step After_E0 b = (if 0xA0 \<le> b \<and> b \<le> 0xBF then Cont1 else Invalid)"
| "utf8_step After_ED b = (if 0x80 \<le> b \<and> b \<le> 0x9F then Cont1 else Invalid)"
| "utf8_step After_F0 b = (if 0x90 \<le> b \<and> b \<le> 0xBF then Cont2 else Invalid)"
| "utf8_step After_F4 b = (if 0x80 \<le> b \<and> b \<le> 0x8F then Cont2 else Invalid)"
| "utf8_step Invalid b = Invalid"

definition decode :: "string \<Rightarrow> py_error + string" where
  "decode bs =
     (if fold (\<lambda>c st. utf8_step st (of_char c)) bs Start = Start
      then Inr bs else Inl UnicodeDecodeError)"

text \<open>\<open>str(Path(p))\<close> on a POSIX system: empty and \<open>.\<close> components and repeated or trailing
  slashes go away, exactly two leading slashes are kept, \<open>..\<close> is kept, and a path with
  nothing left is \<open>.\<close>.\<close>

fun split_slash :: "string \<Rightarrow> string list" where
  "split_slash [] = [[]]"
| "split_slash (c # cs) =
     (if c = CHR ''/'' then [] # split_slash cs
      else (case split_slash cs of [] \<Rightarrow> [[c]] | p # ps \<Rightarrow> (c # p) # ps))"

fun join_slash :: "string list \<Rightarrow> string" where
  "join_slash [] = []"
| "join_slash [p] = p"
| "join_slash (p # q # ps) = p @ ''/'' @ join_slash (q # ps)"

definition str_Path :: "string \<Rightarrow> string" where
  "str_Path p =
     (let parts = filter (\<lambda>c. c \<noteq> [] \<and> c \<noteq> ''.'') (split_slash p);
          root = (if take 2 p = ''//'' \<and> take 3 p \<noteq> ''///'' then ''//''
                  else if take 1 p = ''/'' then ''/'' else [])
      in if root = [] \<and> parts = [] then ''.'' else root @ join_slash parts)"

datatype effect =
    Tee string string proc_result
  | Pkill_HUP proc_result
  | Reblock_callback string

datatype log_level = WARNING | ERROR

text \<open>The outside world during one call of a method: the clock reading taken by
  \<open>_write_blocklist\<close> and the outcomes of the two subprocesses.\<close>

record io =
  write_time :: datetime
  tee_result :: proc_result
  pkill_result :: proc_result

text \<open>The manager. \<open>blocked_hosts_path\<close> is the \<open>Path\<close>, kept as the string that \<open>str\<close> gives
  for it; \<open>conditional_domains\<close> and \<open>always_blocked_domains\<close> are the configured
  lists, read as sets; \<open>on_reblock_callback\<close> tells whether a callback was given; \<open>logged\<close>
  holds the warnings and errors sent to the logger (info and debug records are left out).\<close>

record BlocklistManager =
  blocked_hosts_path :: string
  conditional_domains :: "string list"
  always_blocked_domains :: "string list"
  active_unblocks :: "(string \<times> nat) list"
  on_reblock_callback :: bool
  heap :: "ActiveUnblock list"
  tasks :: "reblock_task list"
  logged :: "(log_level \<times> string) list"
  effects :: "effect list"

definition BlocklistManager_init ::
  "string \<Rightarrow> string list \<Rightarrow> string list \<Rightarrow> bool \<Rightarrow> BlocklistManager" where
  "BlocklistManager_init path conditional always cb =
     \<lparr>blocked_hosts_path = str_Path path, conditional_domains = conditional,
      always_blocked_domains = always, active_unblocks = [], on_reblock_callback = cb,
      heap = [], tasks = [], logged = [], effects = []\<rparr>"

definition all_blocked_domains :: "BlocklistManager \<Rightarrow> string set" where
  "all_blocked_domains s = set (conditional_domains s) \<union> set (always_blocked_domains s)"

definition HOSTS_HEADER :: string where
  "HOSTS_HEADER = ''# Managed by Productivity Guard '' @ [CHR 0xE2, CHR 0x80, CHR 0x94]
                  @ '' do not edit manually'' @ [CHR 0x0A]"

definition log_record :: "log_level \<Rightarrow> string \<Rightarrow> BlocklistManager \<Rightarrow> BlocklistManager" where
  "log_record lvl msg s = s\<lparr>logged := logged s @ [(lvl, msg)]\<rparr>"

subsection \<open>Tasks\<close>

text \<open>\<open>Task.cancel()\<close>: a task that has not resumed after its sleep gets CancelledError at
  the await, which \<open>_reblock_after\<close> swallows; a finished or cancelled task is left alone.\<close>

definition cancel :: "nat \<Rightarrow> BlocklistManager \<Rightarrow> BlocklistManager" where
  "cancel t s =
     (if t < length (tasks s) \<and> task_state (tasks s ! t) = Sleeping
      then s\<lparr>tasks := (tasks s)[t := (tasks s ! t)\<lparr>task_state := Cancelled\<rparr>]\<rparr>
      else s)"

text \<open>\<open>if unblock.timer_task: unblock.timer_task.cancel()\<close> for the object at reference \<open>r\<close>.\<close>

definition cancel_timer_task :: "nat \<Rightarrow> BlocklistManager \<Rightarrow> BlocklistManager" where
  "cancel_timer_task r s =
     (case timer_task (heap s ! r) of None \<Rightarrow> s | Some t \<Rightarrow> cancel t s)"

subsection \<open>Queries\<close>

definition is_domain_unblocked :: "BlocklistManager \<Rightarrow> string \<Rightarrow> bool" where
  "is_domain_unblocked s d = (d \<in> set (map fst (active_unblocks s)))"

definition startswith :: "string \<Rightarrow> string \<Rightarrow> bool" where
  "startswith x p = (take (length p) x = p)"

text \<open>\<open>_get_related_domains\<close>: the result set has at most one element, given as a list.\<close>

definition get_related_domains :: "BlocklistManager \<Rightarrow> string \<Rightarrow> string list" where
  "get_related_domains s d =
     (if startswith d ''www.'' then
        (let base = drop 4 d in if base \<in> all_blocked_domains s then [base] else [])
      else
        (let www = ''www.'' @ d in if www \<in> all_blocked_domains s then [www] else []))"

text \<open>The loop of \<open>get_active_unblocks\<close> over \<open>active_unblocks.items()\<close>; the result is the
  list of the objects' references.\<close>

fun get_active_unblocks_loop ::
  "ActiveUnblock list \<Rightarrow> (string \<times> nat) list \<Rightarrow> string set \<Rightarrow> nat list \<Rightarrow> nat list" where
  "get_active_unblocks_loop h [] seen result = result"
| "get_active_unblocks_loop h ((k, r) # items) seen result =
     (if domain (h ! r) \<notin> seen
      then get_active_unblocks_loop h items (insert (domain (h ! r)) seen) (result @ [r])
      else get_active_unblocks_loop h items seen result)"

definition get_active_unblocks :: "BlocklistManager \<Rightarrow> nat list" where
  "get_active_unblocks s = get_active_unblocks_loop (heap s) (active_unblocks s) {} []"

subsection \<open>Writing the hosts file and signalling dnsmasq\<close>

definition host_line :: "string \<Rightarrow> string" where
  "host_line d = ''0.0.0.0 '' @ d @ [CHR 0x0A]"

definition blocklist_lines :: "datetime \<Rightarrow> BlocklistManager \<Rightarrow> string list" where
  "blocklist_lines now s =
     (let unblocked = set (map fst (active_unblocks s));
          blocked = all_blocked_domains s - unblocked
      in [HOSTS_HEADER, ''# Updated: '' @ isoformat now @ [CHR 0x0A]]
         @ map host_line (sorted_list_of_set blocked))"

text \<open>\<open>_write_blocklist\<close>. On a return code other than zero the message is built from
  \<open>proc.stderr.decode()\<close>, whose UnicodeDecodeError is not caught.\<close>

definition write_blocklist :: "io \<Rightarrow> BlocklistManager \<Rightarrow> (py_error + unit) \<times> BlocklistManager" where
  "write_blocklist w s =
     (let content = concat (blocklist_lines (write_time w) s);
          s1 = s\<lparr>effects := effects s @ [Tee (blocked_hosts_path s) content (tee_result w)]\<rparr>
      in case tee_result w of
           Completed rc err \<Rightarrow>
             (if rc \<noteq> 0 then
                (case decode err of
                   Inl e \<Rightarrow> (Inl e, s1)
                 | Inr msg \<Rightarrow>
                     (Inr (), log_record ERROR (''Failed to write blocklist: '' @ msg) s1))
              else (Inr (), s1))
         | TimeoutExpired \<Rightarrow> (Inr (), log_record ERROR ''Timeout writing blocklist'' s1)
         | Not_started \<Rightarrow> (Inl OSError, s1))"

definition signal_dnsmasq :: "io \<Rightarrow> BlocklistManager \<Rightarrow> (py_error + unit) \<times> BlocklistManager" where
  "signal_dnsmasq w s =
     (let s1 = s\<lparr>effects := effects s @ [Pkill_HUP (pkill_result w)]\<rparr>
      in case pkill_result w of
           Completed rc err \<Rightarrow>
             (if rc \<noteq> 0 then
                (case decode err of
                   Inl e \<Rightarrow> (Inl e, s1)
                 | Inr msg \<Rightarrow>
                     (Inr (), log_record ERROR (''Failed to signal dnsmasq: '' @ msg) s1))
              else (Inr (), s1))
         | TimeoutExpired \<Rightarrow> (Inr (), log_record ERROR ''Timeout signaling dnsmasq'' s1)
         | Not_started \<Rightarrow> (Inl OSError, s1))"

text \<open>The two statements \<open>await self._write_blocklist()\<close> and \<open>self._signal_dnsmasq()\<close>, which
  every method runs one after the other: an exception of the first skips the second.\<close>

definition write_and_signal :: "io \<Rightarrow> BlocklistManager \<Rightarrow> (py_error + unit) \<times> BlocklistManager" where
  "write_and_signal w s =
     (case write_blocklist w s of
        (Inl e, s1) \<Rightarrow> (Inl e, s1)
      | (Inr u, s1) \<Rightarrow> signal_dnsmasq w s1)"

definition initialize :: "io \<Rightarrow> BlocklistManager \<Rightarrow> (py_error + unit) \<times> BlocklistManager" where
  "initialize w s = write_and_signal w s"

subsection \<open>Granting, revoking, expiring\<close>

text \<open>The first step of \<open>unblock_domain\<close> on a managed domain: when the domain is already
  in the table, the timer of the object found under it is cancelled.\<close>

definition cancel_existing :: "string \<Rightarrow> BlocklistManager \<Rightarrow> BlocklistManager" where
  "cancel_existing d s =
     (case map_of (active_unblocks s) d of
        None \<Rightarrow> s
      | Some existing \<Rightarrow> cancel_timer_task existing s)"

text \<open>\<open>unblock_domain\<close>. The result pairs what the caller gets (the returned bool, or the
  exception that leaves the method) with the manager afterwards. The set
  \<open>{domain} | related_domains\<close> is iterated with \<open>domain\<close> first.\<close>

definition unblock_domain ::
  "string \<Rightarrow> string \<Rightarrow> string option \<Rightarrow> string option \<Rightarrow> string \<Rightarrow> int \<Rightarrow> datetime \<Rightarrow> io
     \<Rightarrow> BlocklistManager \<Rightarrow> (py_error + bool) \<times> BlocklistManager" where
  "unblock_domain d ip name sc rsn duration_minutes now w s =
     (if d \<in> set (always_blocked_domains s) then
        (Inr False, log_record WARNING (''Attempted to unblock always-blocked domain: '' @ d) s)
      else if d \<notin> set (conditional_domains s) then
        (Inr False, log_record WARNING (''Attempted to unblock unknown domain: '' @ d) s)
      else
        let s1 = cancel_existing d s;
            domains_to_unblock = d # get_related_domains s1 d
        in case new_ActiveUnblock d ip name sc rsn duration_minutes now of
             Inl e \<Rightarrow> (Inl e, s1)
           | Inr unblock \<Rightarrow>
               let r = length (heap s1);
                   s2 = s1\<lparr>heap := heap s1 @ [unblock]\<rparr>;
                   s3 = s2\<lparr>active_unblocks :=
                            fold (\<lambda>k. AList.update k r) domains_to_unblock (active_unblocks s2)\<rparr>
               in case write_and_signal w s3 of
                    (Inl e, s4) \<Rightarrow> (Inl e, s4)
                  | (Inr u, s4) \<Rightarrow>
                      let t = length (tasks s4);
                          s5 = s4\<lparr>tasks := tasks s4 @
                                   [\<lparr>task_domains = domains_to_unblock,
                                     task_minutes = duration_minutes, task_state = Sleeping\<rparr>]\<rparr>;
                          s6 = s5\<lparr>heap := (heap s5)[r := (heap s5 ! r)\<lparr>timer_task := Some t\<rparr>]\<rparr>
                      in (Inr True, s6))"

text \<open>One round of the loop of \<open>reblock_domain\<close>.\<close>

definition pop_and_cancel :: "string \<Rightarrow> BlocklistManager \<Rightarrow> BlocklistManager" where
  "pop_and_cancel d s =
     (case map_of (active_unblocks s) d of
        None \<Rightarrow> s
      | Some r \<Rightarrow> cancel_timer_task r (s\<lparr>active_unblocks := AList.delete d (active_unblocks s)\<rparr>))"

definition reblock_domain ::
  "string \<Rightarrow> io \<Rightarrow> BlocklistManager \<Rightarrow> (py_error + unit) \<times> BlocklistManager" where
  "reblock_domain d w s =
     (let domains_to_reblock = d # get_related_domains s d;
          s1 = fold pop_and_cancel domains_to_reblock s
      in write_and_signal w s1)"

definition reblock_all :: "io \<Rightarrow> BlocklistManager \<Rightarrow> (py_error + unit) \<times> BlocklistManager" where
  "reblock_all w s =
     (let s1 = fold (\<lambda>(k, r). cancel_timer_task r) (active_unblocks s) s;
          s2 = s1\<lparr>active_unblocks := []\<rparr>
      in write_and_signal w s2)"

text \<open>The end of a task: its state becomes \<open>st\<close>.\<close>

definition finish_task :: "nat \<Rightarrow> task_state \<Rightarrow> BlocklistManager \<Rightarrow> BlocklistManager" where
  "finish_task t st s = s\<lparr>tasks := (tasks s)[t := (tasks s ! t)\<lparr>task_state := st\<rparr>]\<rparr>"

text \<open>\<open>_reblock_after\<close>, from the moment the sleep of task \<open>t\<close> is over. A task that was
  cancelled, or has ended, does nothing. Only CancelledError is caught: an exception of
  the write or of the signal ends the task before the callbacks. The callback is the
  caller's code: each call of it is one effect, taken to return.\<close>

definition reblock_after :: "nat \<Rightarrow> io \<Rightarrow> BlocklistManager \<Rightarrow> BlocklistManager" where
  "reblock_after t w s =
     (if t < length (tasks s) \<and> task_state (tasks s ! t) = Sleeping then
        let domains = task_domains (tasks s ! t);
            s2 = s\<lparr>active_unblocks := fold AList.delete domains (active_unblocks s)\<rparr>
        in case write_and_signal w s2 of
             (Inl e, s3) \<Rightarrow> finish_task t (Failed e) s3
           | (Inr u, s3) \<Rightarrow>
               finish_task t Done
                 (if on_reblock_callback s3
                  then s3\<lparr>effects := effects s3 @ map Reblock_callback domains\<rparr>
                  else s3)
      else s)"

subsection \<open>Inputs used below\<close>

definition io_ok :: io where
  "io_ok = \<lparr>write_time = 63929392205000000, tee_result = Completed 0 [],
            pkill_result = Completed 0 []\<rparr>"

definition io_fail :: io where
  "io_fail = \<lparr>write_time = 63929392205000000, tee_result = Completed 1 ''denied'',
              pkill_result = TimeoutExpired\<rparr>"

definition io_garbled :: io where
  "io_garbled = \<lparr>write_time = 63929392205000000, tee_result = Completed 1 [CHR 0xFF],
                 pkill_result = Completed 0 []\<rparr>"

text \<open>The configuration of the scenario in the documentation of the expiry: two spellings
  of one conditional site and one always-blocked domain, with a callback.\<close>

definition s_demo :: BlocklistManager where
  "s_demo = BlocklistManager_init ''/etc/dnsmasq.d/blocked_hosts''
              [''youtube.com'', ''www.youtube.com''] [''ads.example.com''] True"

text \<open>A grant of youtube.com in that configuration, for a given duration.\<close>

definition demo_grant :: "int \<Rightarrow> io \<Rightarrow> (py_error + bool) \<times> BlocklistManager" where
  "demo_grant m w =
     unblock_domain ''youtube.com'' ''192.168.1.20'' None (Some ''/*'') ''lecture''
       m 63929392205000000 w s_demo"


text \<open>A grant at the clock reading 2026-11-04T12:30:05 whose sync succeeds.\<close>

definition grant :: "string \<Rightarrow> int \<Rightarrow> BlocklistManager \<Rightarrow> (py_error + bool) \<times> BlocklistManager" where
  "grant d m s =
     unblock_domain d ''192.168.1.20'' None (Some ''/*'') ''lecture'' m 63929392205000000 io_ok s"

text \<open>A configuration in which a name, its www form and the www form of that are all
  conditional, and three grants in a row: of www.a.com for 10 minutes, of www.www.a.com
  for 5 minutes, and of www.a.com again for 30 minutes.\<close>

definition s_nested :: BlocklistManager where
  "s_nested = BlocklistManager_init ''/etc/dnsmasq.d/blocked_hosts''
                [''a.com'', ''www.a.com'', ''www.www.a.com''] [] True"

definition nested_1 :: "(py_error + bool) \<times> BlocklistManager" where
  "nested_1 = grant ''www.a.com'' 10 s_nested"

definition nested_2 :: "(py_error + bool) \<times> BlocklistManager" where
  "nested_2 = grant ''www.www.a.com'' 5 (snd nested_1)"

definition nested_3 :: "(py_error + bool) \<times> BlocklistManager" where
  "nested_3 = grant ''www.a.com'' 30 (snd nested_2)"

text \<open>A configuration whose always-blocked domain is the www form of a conditional one.\<close>

definition s_pinned :: BlocklistManager where
  "s_pinned = BlocklistManager_init ''/etc/dnsmasq.d/blocked_hosts''
                [''a.com''] [''www.a.com''] False"

text \<open>A configuration with the two spellings of one site.\<close>

definition s_pair :: BlocklistManager where
  "s_pair = BlocklistManager_init ''/etc/dnsmasq.d/blocked_hosts''
              [''a.com'', ''www.a.com''] [] False"

section \<open>Properties\<close>

subsection \<open>What each step leaves alone\<close>

lemma all_blocked_domains_finite: "finite (all_blocked_domains s)"
  by (simp add: all_blocked_domains_def)

lemma log_record_fields [simp]:
  "active_unblocks (log_record l m s) = active_unblocks s"
  "heap (log_record l m s) = heap s"
  "tasks (log_record l m s) = tasks s"
  "effects (log_record l m s) = effects s"
  "conditional_domains (log_record l m s) = conditional_domains s"
  "always_blocked_domains (log_record l m s) = always_blocked_domains s"
  "on_reblock_callback (log_record l m s) = on_reblock_callback s"
  "blocked_hosts_path (log_record l m s) = blocked_hosts_path s"
  by (simp_all add: log_record_def)

lemma write_blocklist_fields [simp]:
  "active_unblocks (snd (write_blocklist w s)) = active_unblocks s"
  "heap (snd (write_blocklist w s)) = heap s"
  "tasks (snd (write_blocklist w s)) = tasks s"
  "conditional_domains (snd (write_blocklist w s)) = conditional_domains s"
  "always_blocked_domains (snd (write_blocklist w s)) = always_blocked_domains s"
  "on_reblock_callback (snd (write_blocklist w s)) = on_reblock_callback s"
  "blocked_hosts_path (snd (write_blocklist w s)) = blocked_hosts_path s"
  by (simp_all add: write_blocklist_def Let_def split: proc_result.splits sum.splits)

lemma write_blocklist_effects:
  "effects (snd (write_blocklist w s)) =
     effects s @ [Tee (blocked_hosts_path s) (concat (blocklist_lines (write_time w) s)) (tee_result w)]"
  by (simp add: write_blocklist_def Let_def split: proc_result.splits sum.splits)

lemma signal_dnsmasq_fields [simp]:
  "active_unblocks (snd (signal_dnsmasq w s)) = active_unblocks s"
  "heap (snd (signal_dnsmasq w s)) = heap s"
  "tasks (snd (signal_dnsmasq w s)) = tasks s"
  "conditional_domains (snd (signal_dnsmasq w s)) = conditional_domains s"
  "always_blocked_domains (snd (signal_dnsmasq w s)) = always_blocked_domains s"
  "on_reblock_callback (snd (signal_dnsmasq w s)) = on_reblock_callback s"
  "blocked_hosts_path (snd (signal_dnsmasq w s)) = blocked_hosts_path s"
  by (simp_all add: signal_dnsmasq_def Let_def split: proc_result.splits sum.splits)

lemma signal_dnsmasq_effects:
  "effects (snd (signal_dnsmasq w s)) = effects s @ [Pkill_HUP (pkill_result w)]"
  by (simp add: signal_dnsmasq_def Let_def split: proc_result.splits sum.splits)

text \<open>The write followed by the signal, split by whether the write raised.\<close>

lemma write_and_signal_cases:
  obtains (write_raised) e where "fst (write_blocklist w s) = Inl e"
      "write_and_signal w s = (Inl e, snd (write_blocklist w s))"
  | (write_returned) "fst (write_blocklist w s) = Inr ()"
      "write_and_signal w s = signal_dnsmasq w (snd (write_blocklist w s))"
proof (cases "write_blocklist w s")
  case (Pair a s1)
  show ?thesis
  proof (cases a)
    case (Inl e)
    with Pair show ?thesis by (intro write_raised [of e]) (simp_all add: write_and_signal_def)
  next
    case (Inr u)
    with Pair show ?thesis by (intro write_returned) (simp_all add: write_and_signal_def)
  qed
qed

lemma write_and_signal_fields [simp]:
  "active_unblocks (snd (write_and_signal w s)) = active_unblocks s"
  "heap (snd (write_and_signal w s)) = heap s"
  "tasks (snd (write_and_signal w s)) = tasks s"
  "conditional_domains (snd (write_and_signal w s)) = conditional_domains s"
  "always_blocked_domains (snd (write_and_signal w s)) = always_blocked_domains s"
  "on_reblock_callback (snd (write_and_signal w s)) = on_reblock_callback s"
  "blocked_hosts_path (snd (write_and_signal w s)) = blocked_hosts_path s"
  by (cases w s rule: write_and_signal_cases; simp)+

lemma write_and_signal_effects:
  assumes "fst (write_and_signal w s) = Inr u"
  shows "effects (snd (write_and_signal w s)) = effects s @
           [Tee (blocked_hosts_path s) (concat (blocklist_lines (write_time w) s)) (tee_result w),
            Pkill_HUP (pkill_result w)]"
  using assms
  by (cases w s rule: write_and_signal_cases)
     (simp_all add: write_blocklist_effects signal_dnsmasq_effects)

lemma finish_task_fields [simp]:
  "active_unblocks (finish_task t st s) = active_unblocks s"
  "heap (finish_task t st s) = heap s"
  "effects (finish_task t st s) = effects s"
  "logged (finish_task t st s) = logged s"
  "conditional_domains (finish_task t st s) = conditional_domains s"
  "always_blocked_domains (finish_task t st s) = always_blocked_domains s"
  "on_reblock_callback (finish_task t st s) = on_reblock_callback s"
  "blocked_hosts_path (finish_task t st s) = blocked_hosts_path s"
  "tasks (finish_task t st s) = (tasks s)[t := (tasks s ! t)\<lparr>task_state := st\<rparr>]"
  by (simp_all add: finish_task_def)

lemma cancel_fields [simp]:
  "active_unblocks (cancel t s) = active_unblocks s"
  "heap (cancel t s) = heap s"
  "effects (cancel t s) = effects s"
  "logged (cancel t s) = logged s"
  "conditional_domains (cancel t s) = conditional_domains s"
  "always_blocked_domains (cancel t s) = always_blocked_domains s"
  "on_reblock_callback (cancel t s) = on_reblock_callback s"
  "blocked_hosts_path (cancel t s) = blocked_hosts_path s"
  "length (tasks (cancel t s)) = length (tasks s)"
  by (simp_all add: cancel_def)

lemma cancel_timer_task_fields [simp]:
  "active_unblocks (cancel_timer_task r s) = active_unblocks s"
  "heap (cancel_timer_task r s) = heap s"
  "effects (cancel_timer_task r s) = effects s"
  "logged (cancel_timer_task r s) = logged s"
  "conditional_domains (cancel_timer_task r s) = conditional_domains s"
  "always_blocked_domains (cancel_timer_task r s) = always_blocked_domains s"
  "on_reblock_callback (cancel_timer_task r s) = on_reblock_callback s"
  "blocked_hosts_path (cancel_timer_task r s) = blocked_hosts_path s"
  "length (tasks (cancel_timer_task r s)) = length (tasks s)"
  by (simp_all add: cancel_timer_task_def split: option.splits)

lemma all_blocked_domains_cong:
  "conditional_domains s' = conditional_domains s \<Longrightarrow>
   always_blocked_domains s' = always_blocked_domains s \<Longrightarrow>
   all_blocked_domains s' = all_blocked_domains s"
  by (simp add: all_blocked_domains_def)

lemma get_related_domains_cong:
  "conditional_domains s' = conditional_domains s \<Longrightarrow>
   always_blocked_domains s' = always_blocked_domains s \<Longrightarrow>
   get_related_domains s' d = get_related_domains s d"
  by (simp add: get_related_domains_def all_blocked_domains_def)

lemma blocklist_lines_cong:
  "conditional_domains s' = conditional_domains s \<Longrightarrow>
   always_blocked_domains s' = always_blocked_domains s \<Longrightarrow>
   active_unblocks s' = active_unblocks s \<Longrightarrow>
   blocklist_lines now s' = blocklist_lines now s"
  by (simp add: blocklist_lines_def all_blocked_domains_def)

lemma cancel_existing_fields [simp]:
  "active_unblocks (cancel_existing d s) = active_unblocks s"
  "heap (cancel_existing d s) = heap s"
  "effects (cancel_existing d s) = effects s"
  "logged (cancel_existing d s) = logged s"
  "conditional_domains (cancel_existing d s) = conditional_domains s"
  "always_blocked_domains (cancel_existing d s) = always_blocked_domains s"
  "on_reblock_callback (cancel_existing d s) = on_reblock_callback s"
  "blocked_hosts_path (cancel_existing d s) = blocked_hosts_path s"
  "length (tasks (cancel_existing d s)) = length (tasks s)"
  by (simp_all add: cancel_existing_def split: option.splits)

text \<open>The state in which \<open>unblock_domain\<close> calls the write and the signal.\<close>

lemma unblock_domain_unfold:
  assumes "d \<in> set (conditional_domains s)" "d \<notin> set (always_blocked_domains s)"
    and "new_ActiveUnblock d ip name sc rsn m now = Inr u"
    and "s3 = (cancel_existing d s)
           \<lparr>heap := heap s @ [u],
            active_unblocks := fold (\<lambda>k. AList.update k (length (heap s)))
                                 (d # get_related_domains s d) (active_unblocks s)\<rparr>"
  shows "unblock_domain d ip name sc rsn m now w s =
     (case fst (write_and_signal w s3) of
        Inl e \<Rightarrow> (Inl e, snd (write_and_signal w s3))
      | Inr x \<Rightarrow>
          (Inr True,
           (snd (write_and_signal w s3))
             \<lparr>tasks := tasks (cancel_existing d s) @
                 [\<lparr>task_domains = d # get_related_domains s d, task_minutes = m,
                   task_state = Sleeping\<rparr>],
              heap := heap s @ [u\<lparr>timer_task := Some (length (tasks s))\<rparr>]\<rparr>))"
proof -
  have g: "get_related_domains (cancel_existing d s) d = get_related_domains s d"
    by (rule get_related_domains_cong) simp_all
  let ?s3 = "(cancel_existing d s)
           \<lparr>heap := heap s @ [u],
            active_unblocks := fold (\<lambda>k. AList.update k (length (heap s)))
                                 (d # get_related_domains s d) (active_unblocks s)\<rparr>"
  obtain a s4 where ws: "write_and_signal w ?s3 = (a, s4)" by (cases "write_and_signal w ?s3")
  have s4: "s4 = snd (write_and_signal w ?s3)" by (simp only: ws snd_conv)
  have f: "tasks s4 = tasks (cancel_existing d s)" "heap s4 = heap s @ [u]"
    unfolding s4 by simp_all
  show ?thesis
    unfolding assms(4)
    using assms(1,2,3) ws f
    by (simp add: unblock_domain_def Let_def g split: sum.splits)
qed

lemma unblock_domain_success:
  assumes "unblock_domain d ip name sc rsn m now w s = (Inr True, s')"
  shows "d \<in> set (conditional_domains s)" "d \<notin> set (always_blocked_domains s)"
    "\<exists>u. new_ActiveUnblock d ip name sc rsn m now = Inr u \<and>
         heap s' = heap s @ [u\<lparr>timer_task := Some (length (tasks s))\<rparr>]"
    "active_unblocks s' =
       fold (\<lambda>k. AList.update k (length (heap s))) (d # get_related_domains s d) (active_unblocks s)"
    "tasks s' = tasks (cancel_existing d s) @
       [\<lparr>task_domains = d # get_related_domains s d, task_minutes = m, task_state = Sleeping\<rparr>]"
    "effects s' = effects s @
       [Tee (blocked_hosts_path s)
          (concat (blocklist_lines (write_time w) (s\<lparr>active_unblocks := active_unblocks s'\<rparr>)))
          (tee_result w),
        Pkill_HUP (pkill_result w)]"
    "conditional_domains s' = conditional_domains s"
    "always_blocked_domains s' = always_blocked_domains s"
    "on_reblock_callback s' = on_reblock_callback s"
    "blocked_hosts_path s' = blocked_hosts_path s"
proof -
  show c: "d \<in> set (conditional_domains s)" and a: "d \<notin> set (always_blocked_domains s)"
    using assms by (auto simp: unblock_domain_def split: if_splits)
  from assms c a obtain u where u: "new_ActiveUnblock d ip name sc rsn m now = Inr u"
    by (cases "new_ActiveUnblock d ip name sc rsn m now")
       (auto simp: unblock_domain_def Let_def)
  define s3 where "s3 = (cancel_existing d s)
           \<lparr>heap := heap s @ [u],
            active_unblocks := fold (\<lambda>k. AList.update k (length (heap s)))
                                 (d # get_related_domains s d) (active_unblocks s)\<rparr>"
  note un = unblock_domain_unfold [OF c a u s3_def, of w]
  from assms un obtain x where ok: "fst (write_and_signal w s3) = Inr x"
    by (cases "fst (write_and_signal w s3)") auto
  with assms un have s': "s' = (snd (write_and_signal w s3))
             \<lparr>tasks := tasks (cancel_existing d s) @
                 [\<lparr>task_domains = d # get_related_domains s d, task_minutes = m,
                   task_state = Sleeping\<rparr>],
              heap := heap s @ [u\<lparr>timer_task := Some (length (tasks s))\<rparr>]\<rparr>"
    by simp
  show "\<exists>u. new_ActiveUnblock d ip name sc rsn m now = Inr u \<and>
         heap s' = heap s @ [u\<lparr>timer_task := Some (length (tasks s))\<rparr>]"
    using u s' by simp
  show t: "active_unblocks s' =
       fold (\<lambda>k. AList.update k (length (heap s))) (d # get_related_domains s d) (active_unblocks s)"
    by (simp add: s' s3_def)
  show "tasks s' = tasks (cancel_existing d s) @
       [\<lparr>task_domains = d # get_related_domains s d, task_minutes = m, task_state = Sleeping\<rparr>]"
    by (simp add: s')
  have l: "blocklist_lines (write_time w) s3
      = blocklist_lines (write_time w) (s\<lparr>active_unblocks := active_unblocks s'\<rparr>)"
    by (rule blocklist_lines_cong) (simp_all add: s3_def t)
  have "effects s' = effects (snd (write_and_signal w s3))" by (simp add: s')
  also have "\<dots> = effects s3 @
           [Tee (blocked_hosts_path s3) (concat (blocklist_lines (write_time w) s3)) (tee_result w),
            Pkill_HUP (pkill_result w)]"
    by (rule write_and_signal_effects [OF ok])
  finally show "effects s' = effects s @
       [Tee (blocked_hosts_path s)
          (concat (blocklist_lines (write_time w) (s\<lparr>active_unblocks := active_unblocks s'\<rparr>)))
          (tee_result w),
        Pkill_HUP (pkill_result w)]"
    by (simp add: l) (simp add: s3_def)
  show "conditional_domains s' = conditional_domains s"
    "always_blocked_domains s' = always_blocked_domains s"
    "on_reblock_callback s' = on_reblock_callback s"
    "blocked_hosts_path s' = blocked_hosts_path s"
    by (simp_all add: s' s3_def)
qed

subsection \<open>Rejected grants\<close>

text \<open>
  C5. A grant of a domain that is not in the conditional set, be it always-blocked or
  unknown, returns False and changes nothing but the log, which gets one warning: the
  table of active unblocks, the grant objects and the tasks are as before (no timer is
  scheduled), and the trace of effects is as before (no file is written, no signal sent).
\<close>

theorem grant_validation_fails_fast:
  assumes "d \<notin> set (conditional_domains s)"
  shows "\<exists>msg. unblock_domain d ip name sc rsn m now w s
           = (Inr False, s\<lparr>logged := logged s @ [(WARNING, msg)]\<rparr>)"
proof (cases "d \<in> set (always_blocked_domains s)")
  case True
  then have "unblock_domain d ip name sc rsn m now w s
      = (Inr False, s\<lparr>logged := logged s @
           [(WARNING, ''Attempted to unblock always-blocked domain: '' @ d)]\<rparr>)"
    by (simp only: unblock_domain_def log_record_def if_True)
  then show ?thesis by blast
next
  case False
  with assms have "unblock_domain d ip name sc rsn m now w s
      = (Inr False, s\<lparr>logged := logged s @
           [(WARNING, ''Attempted to unblock unknown domain: '' @ d)]\<rparr>)"
    by (simp only: unblock_domain_def log_record_def if_True if_False not_False_eq_True)
  then show ?thesis by blast
qed

theorem grant_validation_fails_fast_witness:
  "''example.org'' \<notin> set (conditional_domains s_demo)
   \<and> (\<exists>msg. unblock_domain ''example.org'' ''10.0.0.2'' None None ''r'' 15 63929392205000000 io_ok s_demo
           = (Inr False, s_demo\<lparr>logged := logged s_demo @ [(WARNING, msg)]\<rparr>))"
proof -
  have h: "''example.org'' \<notin> set (conditional_domains s_demo)"
    by (simp add: s_demo_def BlocklistManager_init_def)
  show ?thesis
    using h grant_validation_fails_fast [OF h] by blast
qed

subsection \<open>The exported file\<close>

text \<open>
  C8. Every export goes through \<open>_write_blocklist\<close>, and what it hands to \<open>tee\<close> is: the
  banner line, the line \<open># Updated: \<close> followed by the ISO 8601 rendering of the clock, and
  one line \<open>0.0.0.0 <domain>\<close> per blocked domain in ascending lexicographic order without
  repetition, where the blocked domains are the conditional and always-blocked ones
  that are not keys of the table of active unblocks at the moment of the write.
\<close>

theorem blocklist_export_format:
  "\<exists>ds. sorted ds \<and> distinct ds
      \<and> set ds = (set (conditional_domains s) \<union> set (always_blocked_domains s))
                  - set (map fst (active_unblocks s))
      \<and> effects (snd (write_blocklist w s)) = effects s @
          [Tee (blocked_hosts_path s)
             (HOSTS_HEADER @ (''# Updated: '' @ isoformat (write_time w) @ [CHR 0x0A])
                @ concat (map (\<lambda>d. ''0.0.0.0 '' @ d @ [CHR 0x0A]) ds))
             (tee_result w)]"
proof -
  let ?B = "all_blocked_domains s - set (map fst (active_unblocks s))"
  have fin: "finite ?B" by (simp add: all_blocked_domains_finite)
  have hl: "host_line = (\<lambda>d. ''0.0.0.0 '' @ d @ [CHR 0x0A])"
    by (simp add: fun_eq_iff host_line_def)
  have "sorted (sorted_list_of_set ?B)" "distinct (sorted_list_of_set ?B)"
    by simp_all
  moreover have "set (sorted_list_of_set ?B)
      = (set (conditional_domains s) \<union> set (always_blocked_domains s))
          - set (map fst (active_unblocks s))"
    using fin by (simp add: all_blocked_domains_def)
  moreover have "effects (snd (write_blocklist w s)) = effects s @
          [Tee (blocked_hosts_path s)
             (HOSTS_HEADER @ (''# Updated: '' @ isoformat (write_time w) @ [CHR 0x0A])
                @ concat (map (\<lambda>d. ''0.0.0.0 '' @ d @ [CHR 0x0A]) (sorted_list_of_set ?B)))
             (tee_result w)]"
    by (simp add: write_blocklist_effects blocklist_lines_def Let_def hl)
  ultimately show ?thesis by blast
qed

subsection \<open>The table after a grant\<close>

lemma map_of_fold_update:
  "map_of (fold (\<lambda>k. AList.update k r) ks al) k = (if k \<in> set ks then Some r else map_of al k)"
  by (induction ks arbitrary: al) (auto simp: update_conv')

lemma keys_fold_update:
  "set (map fst (fold (\<lambda>k. AList.update k r) ks al)) = set ks \<union> set (map fst al)"
proof (induction ks arbitrary: al)
  case Nil
  show ?case by simp
next
  case (Cons k ks)
  have "fst ` set (AList.update k r al) = insert k (fst ` set al)"
    using dom_update [of k r al] by (simp add: dom_map_of_conv_image_fst)
  with Cons show ?case by auto
qed

lemma keys_fold_delete:
  "set (map fst (fold AList.delete ks al)) = set (map fst al) - set ks"
proof (induction ks arbitrary: al)
  case Nil
  show ?case by simp
next
  case (Cons k ks)
  have "fst ` set (AList.delete k al) = fst ` set al - {k}"
    by (auto simp: AList.delete_eq image_iff)
  with Cons show ?case by auto
qed

lemma new_ActiveUnblock_fields:
  assumes "new_ActiveUnblock d ip name sc rsn m now = Inr u"
  shows "domain u = d" "unblocked_at u = now" "expires_at u = now + m * 60000000"
    "device_ip u = ip" "reason u = rsn" "timer_task u = None"
  using assms
  by (auto simp: new_ActiveUnblock_def timedelta_minutes_def datetime_add_def Let_def
           split: sum.splits if_splits)

text \<open>The object a successful grant leaves under the requested domain.\<close>

lemma unblock_domain_object:
  assumes "unblock_domain d ip name sc rsn m now w s = (Inr True, s')"
  shows "\<exists>u. new_ActiveUnblock d ip name sc rsn m now = Inr u
           \<and> heap s' ! length (heap s) = u\<lparr>timer_task := Some (length (tasks s))\<rparr>"
    and "k \<in> set (d # get_related_domains s d) \<Longrightarrow>
           map_of (active_unblocks s') k = Some (length (heap s))"
proof -
  from unblock_domain_success(3) [OF assms] obtain u where
    u: "new_ActiveUnblock d ip name sc rsn m now = Inr u"
       "heap s' = heap s @ [u\<lparr>timer_task := Some (length (tasks s))\<rparr>]"
    by blast
  then show "\<exists>u. new_ActiveUnblock d ip name sc rsn m now = Inr u
           \<and> heap s' ! length (heap s) = u\<lparr>timer_task := Some (length (tasks s))\<rparr>"
    by simp
  show "k \<in> set (d # get_related_domains s d) \<Longrightarrow>
           map_of (active_unblocks s') k = Some (length (heap s))"
    by (simp only: unblock_domain_success(4) [OF assms] map_of_fold_update if_True)
qed

subsection \<open>The times a grant stores\<close>

text \<open>
  C9, as the code has it. A successful grant stores the clock reading as
  \<open>unblocked_at\<close> and that reading plus \<open>duration_minutes\<close> minutes as \<open>expires_at\<close>; the
  duration is not checked, so the expiry is strictly later than the start exactly when
  the duration is positive.
\<close>

theorem grant_expiry_is_offset:
  assumes "unblock_domain d ip name sc rsn m now w s = (Inr True, s')"
  shows "\<exists>r. map_of (active_unblocks s') d = Some r
            \<and> unblocked_at (heap s' ! r) = now
            \<and> expires_at (heap s' ! r) = now + m * 60000000
            \<and> (unblocked_at (heap s' ! r) < expires_at (heap s' ! r) \<longleftrightarrow> 0 < m)"
proof -
  from unblock_domain_object(1) [OF assms] obtain u where
    u: "new_ActiveUnblock d ip name sc rsn m now = Inr u"
       "heap s' ! length (heap s) = u\<lparr>timer_task := Some (length (tasks s))\<rparr>"
    by blast
  have k: "map_of (active_unblocks s') d = Some (length (heap s))"
    by (rule unblock_domain_object(2) [OF assms]) simp
  have "unblocked_at (heap s' ! length (heap s)) = now"
    "expires_at (heap s' ! length (heap s)) = now + m * 60000000"
    using u new_ActiveUnblock_fields [OF u(1)] by simp_all
  with k show ?thesis by simp
qed

lemma demo_grant_15: "fst (demo_grant 15 io_ok) = Inr True"
  by code_simp

theorem grant_expiry_is_offset_witness:
  "demo_grant 15 io_ok = (Inr True, snd (demo_grant 15 io_ok))
   \<and> (\<exists>r. map_of (active_unblocks (snd (demo_grant 15 io_ok))) ''youtube.com'' = Some r
        \<and> unblocked_at (heap (snd (demo_grant 15 io_ok)) ! r) = 63929392205000000
        \<and> expires_at (heap (snd (demo_grant 15 io_ok)) ! r) = 63929392205000000 + 15 * 60000000
        \<and> (unblocked_at (heap (snd (demo_grant 15 io_ok)) ! r)
              < expires_at (heap (snd (demo_grant 15 io_ok)) ! r) \<longleftrightarrow> (0::int) < 15))"
proof -
  have h: "unblock_domain ''youtube.com'' ''192.168.1.20'' None (Some ''/*'') ''lecture''
       15 63929392205000000 io_ok s_demo = (Inr True, snd (demo_grant 15 io_ok))"
    using demo_grant_15 by (simp add: demo_grant_def prod_eq_iff)
  show ?thesis
    using h grant_expiry_is_offset [OF h] by (simp add: demo_grant_def)
qed

text \<open>With a duration of zero minutes the grant succeeds and its expiry equals its start.\<close>

theorem zero_duration_grant_counterexample:
  "fst (demo_grant 0 io_ok) = Inr True
   \<and> map_of (active_unblocks (snd (demo_grant 0 io_ok))) ''youtube.com'' = Some 0
   \<and> \<not> unblocked_at (heap (snd (demo_grant 0 io_ok)) ! 0)
          < expires_at (heap (snd (demo_grant 0 io_ok)) ! 0)"
  by code_simp

subsection \<open>A failed sync\<close>








lemma unblock_domain_timer:
  assumes "unblock_domain d ip name sc rsn m now w s = (Inr True, s')"
  shows "timer_task (heap s' ! length (heap s)) = Some (length (tasks s))"
    "length (tasks s) < length (tasks s')"
    "tasks s' ! length (tasks s)
       = \<lparr>task_domains = d # get_related_domains s d, task_minutes = m, task_state = Sleeping\<rparr>"
proof -
  from unblock_domain_object(1) [OF assms]
  show "timer_task (heap s' ! length (heap s)) = Some (length (tasks s))" by auto
  have t: "tasks s' = tasks (cancel_existing d s) @
       [\<lparr>task_domains = d # get_related_domains s d, task_minutes = m, task_state = Sleeping\<rparr>]"
    by (rule unblock_domain_success(5) [OF assms])
  show "length (tasks s) < length (tasks s')" by (simp add: t)
  have "length (tasks s) = length (tasks (cancel_existing d s))" by simp
  then show "tasks s' ! length (tasks s)
       = \<lparr>task_domains = d # get_related_domains s d, task_minutes = m, task_state = Sleeping\<rparr>"
    by (simp only: t nth_append_length)
qed





subsection \<open>The status report\<close>

lemma get_active_unblocks_loop_distinct:
  assumes "seen = (\<lambda>r. domain (h ! r)) ` set res" "distinct (map (\<lambda>r. domain (h ! r)) res)"
  shows "distinct (map (\<lambda>r. domain (h ! r)) (get_active_unblocks_loop h items seen res))"
  using assms by (induction h items seen res rule: get_active_unblocks_loop.induct) auto

lemma get_active_unblocks_loop_spellings:
  assumes "seen = (\<lambda>r. domain (h ! r)) ` set res"
  shows "(\<lambda>r. domain (h ! r)) ` set (get_active_unblocks_loop h items seen res)
           = seen \<union> (\<lambda>r. domain (h ! r)) ` snd ` set items"
  using assms by (induction h items seen res rule: get_active_unblocks_loop.induct) auto

lemma get_active_unblocks_loop_subset:
  "set (get_active_unblocks_loop h items seen res) \<subseteq> set res \<union> snd ` set items"
  by (induction h items seen res rule: get_active_unblocks_loop.induct) auto

lemma get_active_unblocks_loop_single:
  assumes "snd ` set items \<subseteq> {r}"
  shows "get_active_unblocks_loop h items {domain (h ! r)} [r] = [r]"
  using assms by (induction items) auto

lemma get_active_unblocks_single:
  assumes "active_unblocks s \<noteq> []" "snd ` set (active_unblocks s) \<subseteq> {r}"
  shows "get_active_unblocks s = [r]"
proof (cases "active_unblocks s")
  case Nil
  with assms show ?thesis by simp
next
  case (Cons p items)
  obtain k v where p: "p = (k, v)" by (cases p)
  with Cons assms(2) have "v = r" "snd ` set items \<subseteq> {r}" by auto
  then show ?thesis
    using Cons p get_active_unblocks_loop_single [of items r "heap s"]
    by (simp add: get_active_unblocks_def)
qed

lemma filter_distinct_map_once:
  "distinct (map f xs) \<Longrightarrow> y \<in> f ` set xs \<Longrightarrow> length (filter (\<lambda>x. f x = y) xs) = 1"
proof (induction xs)
  case Nil
  then show ?case by simp
next
  case (Cons x xs)
  show ?case
  proof (cases "f x = y")
    case True
    from Cons.prems(1) have "f x \<notin> f ` set xs" by simp
    with True have "\<forall>z \<in> set xs. f z \<noteq> y" by blast
    then have "filter (\<lambda>x. f x = y) xs = []"
      by (simp add: filter_empty_conv)
    with True show ?thesis by simp
  next
    case False
    with Cons show ?thesis by auto
  qed
qed

lemma distinct_keys_fold_update:
  "distinct (map fst al) \<Longrightarrow> distinct (map fst (fold (\<lambda>k. AList.update k r) ks al))"
  by (induction ks arbitrary: al) (auto simp: distinct_update)

text \<open>
  What holds of the report after a successful grant of \<open>d\<close>, in every state: one object
  whose \<open>domain\<close> is \<open>d\<close> as it was passed is stored under \<open>d\<close> and under its configured www
  variant; the report has no two entries with the same stored spelling, holds only objects
  of the table, and has exactly one entry whose spelling is \<open>d\<close>; and when the table held
  no key outside the granted class, the report is that single object.
\<close>

lemma report_after_grant:
  assumes "unblock_domain d ip name sc rsn m now w s = (Inr True, s')"
  shows "\<exists>r. (\<forall>k \<in> set (d # get_related_domains s d). map_of (active_unblocks s') k = Some r)
          \<and> domain (heap s' ! r) = d
          \<and> distinct (map (\<lambda>x. domain (heap s' ! x)) (get_active_unblocks s'))
          \<and> set (get_active_unblocks s') \<subseteq> snd ` set (active_unblocks s')
          \<and> length (filter (\<lambda>x. domain (heap s' ! x) = d) (get_active_unblocks s')) = 1
          \<and> (distinct (map fst (active_unblocks s))
               \<and> set (map fst (active_unblocks s)) \<subseteq> set (d # get_related_domains s d)
               \<longrightarrow> get_active_unblocks s' = [r])"
proof -
  let ?r = "length (heap s)"
  let ?ks = "d # get_related_domains s d"
  let ?f = "\<lambda>x. domain (heap s' ! x)"
  from unblock_domain_object(1) [OF assms] obtain u where
    u: "new_ActiveUnblock d ip name sc rsn m now = Inr u"
       "heap s' ! ?r = u\<lparr>timer_task := Some (length (tasks s))\<rparr>"
    by blast
  have keys: "\<forall>k \<in> set ?ks. map_of (active_unblocks s') k = Some ?r"
    using unblock_domain_object(2) [OF assms] by blast
  have spell: "?f ?r = d"
    using u(2) new_ActiveUnblock_fields(1) [OF u(1)] by simp
  have dist: "distinct (map ?f (get_active_unblocks s'))"
    unfolding get_active_unblocks_def
    by (rule get_active_unblocks_loop_distinct) simp_all
  have sub: "set (get_active_unblocks s') \<subseteq> snd ` set (active_unblocks s')"
    using get_active_unblocks_loop_subset [of "heap s'" "active_unblocks s'" "{}" "[]"]
    by (simp add: get_active_unblocks_def)
  have "map_of (active_unblocks s') d = Some ?r" using keys by simp
  then have mem: "(d, ?r) \<in> set (active_unblocks s')" by (rule map_of_SomeD)
  then have "?r \<in> snd ` set (active_unblocks s')" by force
  then have "d \<in> ?f ` snd ` set (active_unblocks s')" using spell by blast
  then have "d \<in> ?f ` set (get_active_unblocks s')"
    using get_active_unblocks_loop_spellings [of "{}" "heap s'" "[]" "active_unblocks s'"]
    by (simp add: get_active_unblocks_def)
  with dist have once: "length (filter (\<lambda>x. ?f x = d) (get_active_unblocks s')) = 1"
    by (rule filter_distinct_map_once)
  have only: "get_active_unblocks s' = [?r]"
    if dk: "distinct (map fst (active_unblocks s))"
      and ks: "set (map fst (active_unblocks s)) \<subseteq> set ?ks"
  proof (rule get_active_unblocks_single)
    show "active_unblocks s' \<noteq> []" using mem by auto
    have tab: "active_unblocks s' = fold (\<lambda>k. AList.update k ?r) ?ks (active_unblocks s)"
      by (rule unblock_domain_success(4) [OF assms])
    have dk': "distinct (map fst (active_unblocks s'))"
      unfolding tab using dk by (rule distinct_keys_fold_update)
    have ks': "set (map fst (active_unblocks s')) \<subseteq> set ?ks"
      unfolding tab keys_fold_update using ks by auto
    show "snd ` set (active_unblocks s') \<subseteq> {?r}"
    proof
      fix v assume "v \<in> snd ` set (active_unblocks s')"
      then obtain k where kv: "(k, v) \<in> set (active_unblocks s')" by force
      then have "map_of (active_unblocks s') k = Some v"
        using dk' by (simp add: map_of_eq_Some_iff)
      moreover have "k \<in> set ?ks" using kv ks' by force
      ultimately show "v \<in> {?r}" using keys by auto
    qed
  qed
  show ?thesis
    using keys spell dist sub once only by blast
qed

subsection \<open>Expiry\<close>

lemma reblock_after_not_sleeping:
  "\<not> (t < length (tasks s) \<and> task_state (tasks s ! t) = Sleeping) \<Longrightarrow> reblock_after t w s = s"
  by (auto simp add: reblock_after_def)

text \<open>The body of a sleeping task, split by whether the write or the signal raised.\<close>

lemma reblock_after_unfold:
  assumes "t < length (tasks s)" "task_state (tasks s ! t) = Sleeping"
    and "s2 = s\<lparr>active_unblocks := fold AList.delete (task_domains (tasks s ! t)) (active_unblocks s)\<rparr>"
  shows "reblock_after t w s =
     (case fst (write_and_signal w s2) of
        Inl e \<Rightarrow> finish_task t (Failed e) (snd (write_and_signal w s2))
      | Inr u \<Rightarrow>
          finish_task t Done
            (if on_reblock_callback s
             then (snd (write_and_signal w s2))
                    \<lparr>effects := effects (snd (write_and_signal w s2))
                        @ map Reblock_callback (task_domains (tasks s ! t))\<rparr>
             else snd (write_and_signal w s2)))"
proof -
  obtain a s3 where ws: "write_and_signal w s2 = (a, s3)" by (cases "write_and_signal w s2")
  have s3: "s3 = snd (write_and_signal w s2)" by (simp only: ws snd_conv)
  have cb: "on_reblock_callback s3 = on_reblock_callback s"
    unfolding s3 by (simp add: assms(3))
  show ?thesis
    using assms(1,2) ws cb
    by (simp add: reblock_after_def Let_def assms(3) [symmetric] split: sum.splits)
qed

lemma reblock_after_done:
  assumes "t < length (tasks s)" "task_state (tasks s ! t) = Sleeping"
    and "task_state (tasks (reblock_after t w s) ! t) = Done"
  shows "active_unblocks (reblock_after t w s)
           = fold AList.delete (task_domains (tasks s ! t)) (active_unblocks s)"
    and "tasks (reblock_after t w s) = (tasks s)[t := (tasks s ! t)\<lparr>task_state := Done\<rparr>]"
    and "heap (reblock_after t w s) = heap s"
    and "effects (reblock_after t w s) = effects s @
           [Tee (blocked_hosts_path s)
              (concat (blocklist_lines (write_time w)
                 (s\<lparr>active_unblocks := fold AList.delete (task_domains (tasks s ! t)) (active_unblocks s)\<rparr>)))
              (tee_result w),
            Pkill_HUP (pkill_result w)]
           @ (if on_reblock_callback s then map Reblock_callback (task_domains (tasks s ! t)) else [])"
proof -
  let ?s2 = "s\<lparr>active_unblocks := fold AList.delete (task_domains (tasks s ! t)) (active_unblocks s)\<rparr>"
  note un = reblock_after_unfold [OF assms(1,2) refl, of w]
  have ok: "fst (write_and_signal w ?s2) = Inr ()"
  proof (cases "fst (write_and_signal w ?s2)")
    case (Inl e)
    with un assms(1) have "task_state (tasks (reblock_after t w s) ! t) = Failed e"
      by simp
    with assms(3) show ?thesis by simp
  next
    case (Inr u)
    then show ?thesis by simp
  qed
  then have r: "reblock_after t w s =
      finish_task t Done
        (if on_reblock_callback s
         then (snd (write_and_signal w ?s2))
                \<lparr>effects := effects (snd (write_and_signal w ?s2))
                    @ map Reblock_callback (task_domains (tasks s ! t))\<rparr>
         else snd (write_and_signal w ?s2))"
    using un by simp
  note eff = write_and_signal_effects [OF ok]
  show "active_unblocks (reblock_after t w s)
           = fold AList.delete (task_domains (tasks s ! t)) (active_unblocks s)"
    by (simp add: r)
  show "tasks (reblock_after t w s) = (tasks s)[t := (tasks s ! t)\<lparr>task_state := Done\<rparr>]"
    by (simp add: r)
  show "heap (reblock_after t w s) = heap s"
    by (simp add: r)
  show "effects (reblock_after t w s) = effects s @
           [Tee (blocked_hosts_path s)
              (concat (blocklist_lines (write_time w) ?s2))
              (tee_result w),
            Pkill_HUP (pkill_result w)]
           @ (if on_reblock_callback s then map Reblock_callback (task_domains (tasks s ! t)) else [])"
    by (simp add: r eff)
qed

lemma get_related_domains_blocked:
  "set (get_related_domains s d) \<subseteq> all_blocked_domains s"
  by (auto simp add: get_related_domains_def Let_def)

lemma blocklist_content:
  "\<exists>ds. sorted ds \<and> distinct ds
      \<and> set ds = all_blocked_domains s - set (map fst (active_unblocks s))
      \<and> concat (blocklist_lines now s)
          = HOSTS_HEADER @ (''# Updated: '' @ isoformat now @ [CHR 0x0A])
              @ concat (map (\<lambda>d. ''0.0.0.0 '' @ d @ [CHR 0x0A]) ds)"
proof -
  let ?B = "all_blocked_domains s - set (map fst (active_unblocks s))"
  have fin: "finite ?B" by (simp add: all_blocked_domains_finite)
  have hl: "host_line = (\<lambda>d. ''0.0.0.0 '' @ d @ [CHR 0x0A])"
    by (simp add: fun_eq_iff host_line_def)
  have "sorted (sorted_list_of_set ?B)" "distinct (sorted_list_of_set ?B)"
    by simp_all
  moreover have "set (sorted_list_of_set ?B) = ?B"
    using fin by simp
  moreover have "concat (blocklist_lines now s)
          = HOSTS_HEADER @ (''# Updated: '' @ isoformat now @ [CHR 0x0A])
              @ concat (map (\<lambda>d. ''0.0.0.0 '' @ d @ [CHR 0x0A]) (sorted_list_of_set ?B))"
    by (simp add: blocklist_lines_def Let_def hl)
  ultimately show ?thesis by blast
qed

text \<open>
  C4, as the code has it. Let a grant of \<open>d\<close> succeed, and let its timer fire with no call
  in between and its task run to the end (the write and the signal of the expiry raise
  nothing). Then no member of the granted class (\<open>d\<close> and its configured www variant) is
  unblocked any more; one file is written and one signal sent, and the file lists every
  member among the blocked domains; and, when a callback is configured, the callback is
  invoked once for each member, each invocation carrying that one domain, in place of one
  event that would carry them all. Without a callback nothing is emitted. The task has
  run: a further fire of it changes nothing.
\<close>

theorem natural_expiry:
  assumes "unblock_domain d ip name sc rsn m now w s = (Inr True, s1)"
    and "s2 = reblock_after (length (tasks s)) w' s1"
    and "task_state (tasks s2 ! length (tasks s)) = Done"
  shows "(\<forall>x \<in> set (d # get_related_domains s d). \<not> is_domain_unblocked s2 x)
       \<and> (\<exists>ds. sorted ds \<and> distinct ds
             \<and> set ds = all_blocked_domains s - set (map fst (active_unblocks s2))
             \<and> set (d # get_related_domains s d) \<subseteq> set ds
             \<and> effects s2 = effects s1 @
                  [Tee (blocked_hosts_path s)
                     (HOSTS_HEADER @ (''# Updated: '' @ isoformat (write_time w') @ [CHR 0x0A])
                        @ concat (map (\<lambda>d. ''0.0.0.0 '' @ d @ [CHR 0x0A]) ds))
                     (tee_result w'),
                   Pkill_HUP (pkill_result w')]
                  @ (if on_reblock_callback s
                     then map Reblock_callback (d # get_related_domains s d) else []))
       \<and> reblock_after (length (tasks s)) w'' s2 = s2"
proof -
  let ?t = "length (tasks s)"
  let ?ms = "d # get_related_domains s d"
  note tm = unblock_domain_timer [OF assms(1)]
  have sl: "?t < length (tasks s1)" "task_state (tasks s1 ! ?t) = Sleeping"
    and dom: "task_domains (tasks s1 ! ?t) = ?ms"
    using tm by simp_all
  have dn: "task_state (tasks (reblock_after ?t w' s1) ! ?t) = Done"
    using assms(2,3) by simp
  note ra = reblock_after_done [OF sl dn]
  have tab: "active_unblocks s2 = fold AList.delete ?ms (active_unblocks s1)"
    using ra(1) dom assms(2) by simp
  have keys: "set (map fst (active_unblocks s2)) = set (map fst (active_unblocks s1)) - set ?ms"
    unfolding tab by (rule keys_fold_delete)
  then have gone: "\<forall>x \<in> set ?ms. \<not> is_domain_unblocked s2 x"
    by (simp add: is_domain_unblocked_def)
  have cfg: "conditional_domains s1 = conditional_domains s"
    "always_blocked_domains s1 = always_blocked_domains s"
    "on_reblock_callback s1 = on_reblock_callback s"
    "blocked_hosts_path s1 = blocked_hosts_path s"
    by (rule unblock_domain_success [OF assms(1)])+
  let ?s' = "s1\<lparr>active_unblocks := fold AList.delete ?ms (active_unblocks s1)\<rparr>"
  have all: "all_blocked_domains ?s' = all_blocked_domains s"
    by (rule all_blocked_domains_cong) (simp_all add: cfg)
  from blocklist_content [of ?s' "write_time w'"] obtain ds where
    ds: "sorted ds" "distinct ds"
      "set ds = all_blocked_domains ?s' - set (map fst (active_unblocks ?s'))"
      "concat (blocklist_lines (write_time w') ?s')
          = HOSTS_HEADER @ (''# Updated: '' @ isoformat (write_time w') @ [CHR 0x0A])
              @ concat (map (\<lambda>d. ''0.0.0.0 '' @ d @ [CHR 0x0A]) ds)"
    by blast
  have set_ds: "set ds = all_blocked_domains s - set (map fst (active_unblocks s2))"
    using ds(3) all tab by simp
  have "d \<in> all_blocked_domains s"
    using unblock_domain_success(1) [OF assms(1)] by (simp add: all_blocked_domains_def)
  then have "set ?ms \<subseteq> all_blocked_domains s"
    using get_related_domains_blocked [of s d] by simp
  then have incl: "set ?ms \<subseteq> set ds"
    using set_ds keys by auto
  have eff: "effects s2 = effects s1 @
                  [Tee (blocked_hosts_path s)
                     (HOSTS_HEADER @ (''# Updated: '' @ isoformat (write_time w') @ [CHR 0x0A])
                        @ concat (map (\<lambda>d. ''0.0.0.0 '' @ d @ [CHR 0x0A]) ds))
                     (tee_result w'),
                   Pkill_HUP (pkill_result w')]
                  @ (if on_reblock_callback s then map Reblock_callback ?ms else [])"
    unfolding assms(2) ra(4) dom cfg ds(4) ..
  have again: "reblock_after ?t w'' s2 = s2"
    using assms(3) by (simp add: reblock_after_not_sleeping)
  show ?thesis
    using gone ds(1,2) set_ds incl eff again by blast
qed

lemma demo_expiry_done:
  "task_state (tasks (reblock_after 0 io_ok (snd (demo_grant 15 io_ok))) ! 0) = Done"
  by code_simp

theorem natural_expiry_witness:
  "demo_grant 15 io_ok = (Inr True, snd (demo_grant 15 io_ok))
   \<and> task_state (tasks (reblock_after 0 io_ok (snd (demo_grant 15 io_ok))) ! 0) = Done
   \<and> \<not> is_domain_unblocked (reblock_after 0 io_ok (snd (demo_grant 15 io_ok))) ''youtube.com''
   \<and> \<not> is_domain_unblocked (reblock_after 0 io_ok (snd (demo_grant 15 io_ok))) ''www.youtube.com''
   \<and> reblock_after 0 io_fail (reblock_after 0 io_ok (snd (demo_grant 15 io_ok)))
       = reblock_after 0 io_ok (snd (demo_grant 15 io_ok))"
proof -
  have c: "demo_grant 15 io_ok = (Inr True, snd (demo_grant 15 io_ok))"
    using demo_grant_15 by (simp add: prod_eq_iff)
  have h: "unblock_domain ''youtube.com'' ''192.168.1.20'' None (Some ''/*'') ''lecture''
       15 63929392205000000 io_ok s_demo = (Inr True, snd (demo_grant 15 io_ok))"
    using c by (simp only: demo_grant_def)
  have t: "length (tasks s_demo) = 0"
    by (simp add: s_demo_def BlocklistManager_init_def)
  have g: "get_related_domains s_demo ''youtube.com'' = [''www.youtube.com'']"
    by code_simp
  have e: "reblock_after 0 io_ok (snd (demo_grant 15 io_ok))
      = reblock_after (length (tasks s_demo)) io_ok (snd (demo_grant 15 io_ok))"
    by (simp only: t)
  have dn: "task_state (tasks (reblock_after 0 io_ok (snd (demo_grant 15 io_ok)))
      ! length (tasks s_demo)) = Done"
    using demo_expiry_done by (simp only: t)
  from natural_expiry [OF h e dn, of io_fail]
  have "(\<forall>x \<in> set (''youtube.com'' # get_related_domains s_demo ''youtube.com'').
           \<not> is_domain_unblocked (reblock_after 0 io_ok (snd (demo_grant 15 io_ok))) x)"
    and "reblock_after (length (tasks s_demo)) io_fail (reblock_after 0 io_ok (snd (demo_grant 15 io_ok)))
       = reblock_after 0 io_ok (snd (demo_grant 15 io_ok))"
    by blast+
  with c g t demo_expiry_done show ?thesis by simp
qed

text \<open>In the documented scenario the expiry of the grant of youtube.com invokes the
  callback twice, once with each spelling.\<close>

theorem expiry_events_counterexample:
  "fst (demo_grant 15 io_ok) = Inr True
   \<and> on_reblock_callback s_demo
   \<and> filter (\<lambda>e. case e of Reblock_callback x \<Rightarrow> True | _ \<Rightarrow> False)
        (effects (reblock_after 0 io_ok (snd (demo_grant 15 io_ok))))
      = [Reblock_callback ''youtube.com'', Reblock_callback ''www.youtube.com'']"
  by code_simp

section \<open>Where the code departs from the stated properties\<close>

subsection \<open>A timer that outlives its grant\<close>

text \<open>
  C1. In the nested configuration www.a.com is granted, then www.www.a.com (whose class
  takes over the entry of www.a.com without cancelling the timer of the first grant), then
  www.a.com again. All three grants succeed, and after the third the timer of the first
  (task 0) is still sleeping, since the re-grant cancelled the timer of the object it
  found under www.a.com, which was the second grant's. When task 0 fires, www.a.com is
  taken out of the table and written to the hosts file as blocked, while the timer of the
  re-grant (task 2) is still sleeping.
\<close>

theorem stale_timer_reblocks_regranted_domain:
  "fst nested_1 = Inr True \<and> fst nested_2 = Inr True \<and> fst nested_3 = Inr True
   \<and> map (\<lambda>t. task_state t) (tasks (snd nested_3)) = [Sleeping, Cancelled, Sleeping]
   \<and> task_domains (tasks (snd nested_3) ! 0) = [''www.a.com'', ''a.com'']
   \<and> is_domain_unblocked (snd nested_3) ''www.a.com''
   \<and> \<not> is_domain_unblocked (reblock_after 0 io_ok (snd nested_3)) ''www.a.com''
   \<and> reblock_after 0 io_ok (snd nested_3) \<noteq> snd nested_3
   \<and> map (\<lambda>t. task_state t) (tasks (reblock_after 0 io_ok (snd nested_3)))
        = [Done, Cancelled, Sleeping]
   \<and> drop 6 (effects (reblock_after 0 io_ok (snd nested_3)))
        = [Tee ''/etc/dnsmasq.d/blocked_hosts''
             (HOSTS_HEADER @ ''# Updated: 2026-11-04T12:30:05'' @ [CHR 0x0A]
                @ ''0.0.0.0 a.com'' @ [CHR 0x0A] @ ''0.0.0.0 www.a.com'' @ [CHR 0x0A])
             (Completed 0 []),
           Pkill_HUP (Completed 0 []),
           Reblock_callback ''www.a.com'', Reblock_callback ''a.com'']"
  by code_simp

subsection \<open>An always-blocked www variant\<close>

text \<open>
  C2. www.a.com is always-blocked and a.com is conditional. The grant of a.com succeeds,
  enters www.a.com into the table of active unblocks, and writes a hosts file that lists
  no domain at all, while a grant of www.a.com itself is refused.
\<close>

theorem always_blocked_variant_is_unblocked:
  "''www.a.com'' \<in> set (always_blocked_domains s_pinned)
   \<and> fst (grant ''www.a.com'' 15 s_pinned) = Inr False
   \<and> \<not> is_domain_unblocked s_pinned ''www.a.com''
   \<and> fst (grant ''a.com'' 15 s_pinned) = Inr True
   \<and> is_domain_unblocked (snd (grant ''a.com'' 15 s_pinned)) ''www.a.com''
   \<and> active_unblocks (snd (grant ''a.com'' 15 s_pinned)) = [(''a.com'', 0), (''www.a.com'', 0)]
   \<and> effects (snd (grant ''a.com'' 15 s_pinned))
        = [Tee ''/etc/dnsmasq.d/blocked_hosts''
             (HOSTS_HEADER @ ''# Updated: 2026-11-04T12:30:05'' @ [CHR 0x0A])
             (Completed 0 []),
           Pkill_HUP (Completed 0 [])]"
  by code_simp

subsection \<open>Timers that a full revocation does not reach\<close>

text \<open>
  C6. After the three grants in the nested configuration the object of the first grant is
  no longer in the table, so \<open>reblock_all\<close> does not cancel its timer: the table is empty
  afterwards, but task 0 is still sleeping, and when it fires it is not without effect: the
  hosts file is written and dnsmasq signalled once more, and the callback is invoked for
  both domains of the first grant.
\<close>

theorem revoke_all_leaves_timer_pending:
  "fst nested_1 = Inr True \<and> fst nested_2 = Inr True \<and> fst nested_3 = Inr True
   \<and> fst (reblock_all io_ok (snd nested_3)) = Inr ()
   \<and> active_unblocks (snd (reblock_all io_ok (snd nested_3))) = []
   \<and> map (\<lambda>t. task_state t) (tasks (snd (reblock_all io_ok (snd nested_3))))
        = [Sleeping, Cancelled, Cancelled]
   \<and> reblock_after 0 io_ok (snd (reblock_all io_ok (snd nested_3)))
        \<noteq> snd (reblock_all io_ok (snd nested_3))
   \<and> drop 8 (effects (reblock_after 0 io_ok (snd (reblock_all io_ok (snd nested_3)))))
        = [Tee ''/etc/dnsmasq.d/blocked_hosts''
             (HOSTS_HEADER @ ''# Updated: 2026-11-04T12:30:05'' @ [CHR 0x0A]
                @ ''0.0.0.0 a.com'' @ [CHR 0x0A] @ ''0.0.0.0 www.a.com'' @ [CHR 0x0A]
                @ ''0.0.0.0 www.www.a.com'' @ [CHR 0x0A])
             (Completed 0 []),
           Pkill_HUP (Completed 0 []),
           Reblock_callback ''www.a.com'', Reblock_callback ''a.com'']"
  by code_simp

subsection \<open>Half of an alias class\<close>

text \<open>
  C7. With a.com and www.a.com configured, a grant of a.com unblocks both. A revocation
  asked for the name www.www.a.com, which is not configured, resolves to the class
  of that name and www.a.com: it removes www.a.com alone and cancels the timer of the
  grant. Afterwards a.com is unblocked and www.a.com is not, and the only timer is
  cancelled, so a.com stays unblocked until another call removes it.
\<close>

theorem revoke_splits_alias_class:
  "get_related_domains s_pair ''a.com'' = [''www.a.com'']
   \<and> get_related_domains s_pair ''www.a.com'' = [''a.com'']
   \<and> fst (grant ''a.com'' 15 s_pair) = Inr True
   \<and> is_domain_unblocked (snd (grant ''a.com'' 15 s_pair)) ''a.com''
   \<and> is_domain_unblocked (snd (grant ''a.com'' 15 s_pair)) ''www.a.com''
   \<and> fst (reblock_domain ''www.www.a.com'' io_ok (snd (grant ''a.com'' 15 s_pair))) = Inr ()
   \<and> is_domain_unblocked
        (snd (reblock_domain ''www.www.a.com'' io_ok (snd (grant ''a.com'' 15 s_pair)))) ''a.com''
   \<and> \<not> is_domain_unblocked
        (snd (reblock_domain ''www.www.a.com'' io_ok (snd (grant ''a.com'' 15 s_pair)))) ''www.a.com''
   \<and> map (\<lambda>t. task_state t)
        (tasks (snd (reblock_domain ''www.www.a.com'' io_ok (snd (grant ''a.com'' 15 s_pair)))))
        = [Cancelled]"
  by code_simp

subsection \<open>A report that lists the variant\<close>


section \<open>When the stderr of a failed subprocess is not UTF-8\<close>

text \<open>The write exits with status 1 and a stderr that cannot be decoded. A grant then ends
  with UnicodeDecodeError after the table was changed and the file handed to tee, before
  the signal and before the timer is created. An expiry ends the same way in its task:
  the domains are out of the table, and there is no signal and no callback.\<close>

lemma undecodable_stderr_in_grant:
  "fst (demo_grant 15 io_garbled) = Inl UnicodeDecodeError
   \<and> is_domain_unblocked (snd (demo_grant 15 io_garbled)) ''youtube.com''
   \<and> tasks (snd (demo_grant 15 io_garbled)) = []
   \<and> length (effects (snd (demo_grant 15 io_garbled))) = 1"
  by code_simp

lemma undecodable_stderr_in_expiry:
  "task_state (tasks (reblock_after 0 io_garbled (snd (demo_grant 15 io_ok))) ! 0)
     = Failed UnicodeDecodeError
   \<and> \<not> is_domain_unblocked (reblock_after 0 io_garbled (snd (demo_grant 15 io_ok))) ''youtube.com''
   \<and> length (effects (reblock_after 0 io_garbled (snd (demo_grant 15 io_ok)))) = 3
   \<and> filter (\<lambda>e. case e of Reblock_callback x \<Rightarrow> True | _ \<Rightarrow> False)
        (effects (reblock_after 0 io_garbled (snd (demo_grant 15 io_ok)))) = []"
  by code_simp

end
